theory Spec2Isabelle
  imports Main
begin

section \<open>The dropdown component: data\<close>

text \<open>
  The type \<open>Placements\<close> is imported by the component from a module that is not part of
  the sources at hand. Its members are taken from the \<open>@type\<close> line that documents the
  \<open>placement\<close> prop of \<open>CDropdownProps\<close>: thirteen string literals.
\<close>

datatype Placements =
    Auto | TopEnd | Top | TopStart
  | BottomEnd | Bottom | BottomStart
  | RightStart | Right | RightEnd
  | LeftStart | Left | LeftEnd

text \<open>\<open>Directions = 'start' | 'end'\<close>, and the six one-key breakpoint objects.\<close>

datatype Directions = Start | End

datatype Breakpoints =
    Xs Directions | Sm Directions | Md Directions
  | Lg Directions | Xl Directions | Xxl Directions

text \<open>\<open>Alignments = Directions | Breakpoints\<close>: a plain string or a breakpoint object.\<close>

datatype Alignments = Plain Directions | Responsive Breakpoints

text \<open>The string literals of the \<open>direction\<close> prop.\<close>

datatype DropDirection = Center | Dropup | DropupCenter | Dropend | Dropstart

text \<open>\<open>autoClose?: 'inside' | 'outside' | boolean\<close>.\<close>

datatype AutoClose = Inside | Outside | Always bool

section \<open>The placement resolver\<close>

text \<open>
  \<open>getPlacement\<close> assigns to the local \<open>_placement\<close> in five consecutive \<open>if\<close>
  statements; each \<open>let\<close> below is one of them, in the order of the source. An absent
  (\<open>undefined\<close>) direction or alignment is \<open>None\<close>. \<open>alignment === 'end'\<close> holds for the
  plain string only, never for a breakpoint object.
\<close>

definition getPlacement ::
  "Placements \<Rightarrow> DropDirection option \<Rightarrow> Alignments option \<Rightarrow> bool \<Rightarrow> Placements" where
  "getPlacement placement direction alignment isRTL =
    (let p0 = placement;
         p1 = (if direction = Some Dropup
               then (if isRTL then TopEnd else TopStart) else p0);
         p2 = (if direction = Some DropupCenter then Top else p1);
         p3 = (if direction = Some Dropend
               then (if isRTL then LeftStart else RightStart) else p2);
         p4 = (if direction = Some Dropstart
               then (if isRTL then RightStart else LeftStart) else p3);
         p5 = (if alignment = Some (Plain End)
               then (if isRTL then BottomStart else BottomEnd) else p4)
     in p5)"

section \<open>The dropdown component: props, closures and the page\<close>

text \<open>
  A DOM element is used by the component only through \<open>el.contains(node)\<close>; an element
  is therefore the set of nodes it contains.
\<close>

type_synonym node = nat
type_synonym element = "node set"

text \<open>
  The props the component logic reads. Optional props are \<open>option\<close>s; the defaults of the
  destructuring pattern are applied in \<open>render_body\<close>. \<open>onHide\<close> and \<open>onShow\<close> say whether the
  callback was supplied. The props that only shape the markup (\<open>className\<close>, \<open>component\<close>,
  \<open>container\<close>, \<open>dark\<close>, \<open>portal\<close>, \<open>variant\<close>, \<open>children\<close>) are left out.
\<close>

record CDropdownProps =
  alignment :: "Alignments option"
  autoClose :: "AutoClose option"
  direction :: "DropDirection option"
  offset :: "(int \<times> int) option"
  onHide :: bool
  onShow :: bool
  placement :: "Placements option"
  popper :: "bool option"
  visible :: "bool option"

text \<open>
  The calls the component makes to the outside: the two functions of the \<open>usePopper\<close> hook
  (\<open>initPopper\<close> with the two elements, the resolved placement and the offset) and the two
  callbacks. They are recorded in the order in which they happen.
\<close>

datatype call =
    InitPopper element element Placements "int \<times> int"
  | DestroyPopper
  | OnShow
  | OnHide

fun is_InitPopper :: "call \<Rightarrow> bool" where
  "is_InitPopper (InitPopper t m pl off) = True"
| "is_InitPopper DestroyPopper = False"
| "is_InitPopper OnShow = False"
| "is_InitPopper OnHide = False"

text \<open>
  Every render of the function component creates new function objects
  (\<open>handleKeyup\<close>, \<open>handleMouseUp\<close>, the effect and its cleanup) that close over the values of
  that render. \<open>render_values\<close> holds those values; \<open>rid\<close> is the identity of the render, so
  that handlers of different renders are different listeners for
  \<open>addEventListener\<close> and \<open>removeEventListener\<close>.
\<close>

record render_values =
  rid :: nat
  r_visible_prop :: bool
  r_visible :: bool
  r_autoClose :: AutoClose
  r_popper :: bool
  r_onHide :: bool
  r_onShow :: bool
  r_placement :: Placements
  r_offset :: "int \<times> int"

text \<open>
  The state of one mounted component and of the part of the page it touches:
  \<^item> \<open>visible_state\<close> is the state variable \<open>_visible\<close>, \<open>queued\<close> a state update requested
    by \<open>setVisible\<close> and not yet processed;
  \<^item> the two refs hold the element attached by the toggle and by the menu, if any;
  \<^item> \<open>isRTL\<close> is the utility of that name, whose source is not at hand: it is a parameter;
  \<^item> \<open>dep_visible\<close> and \<open>dep_visible_state\<close> are the dependency values (\<open>[visible]\<close> and
    \<open>[_visible]\<close>) with which the two effects last ran, \<open>None\<close> before the first run;
  \<^item> \<open>cleanup\<close> is the cleanup function returned by the last run of the second effect;
  \<^item> \<open>mouseup_listeners\<close> and \<open>keyup_listeners\<close> are the listeners of this component
    registered on \<open>window\<close>;
  \<^item> \<open>timeouts\<close> counts the pending \<open>setTimeout(() => setVisible(false), 1)\<close> callbacks;
  \<^item> \<open>calls\<close> is the record of outside calls.
\<close>

record world =
  mounted :: bool
  props :: CDropdownProps
  visible_state :: bool
  queued :: "bool option"
  dropdownToggleRef :: "element option"
  dropdownMenuRef :: "element option"
  isRTL :: "element option \<Rightarrow> bool"
  renders :: nat
  dep_visible :: "bool option"
  dep_visible_state :: "bool option"
  cleanup :: "render_values option"
  mouseup_listeners :: "render_values list"
  keyup_listeners :: "render_values list"
  timeouts :: nat
  calls :: "call list"

section \<open>The component function\<close>

definition with_default :: "'a \<Rightarrow> 'a option \<Rightarrow> 'a" where
  "with_default d x = (case x of None \<Rightarrow> d | Some v \<Rightarrow> v)"

text \<open>\<open>typeof alignment === 'object'\<close>: true for a breakpoint object only.\<close>

definition is_object :: "Alignments option \<Rightarrow> bool" where
  "is_object a = (case a of Some (Responsive b) \<Rightarrow> True | _ \<Rightarrow> False)"

text \<open>
  The body of the component up to its effects: the defaults, the override
  \<open>if (typeof alignment === 'object') popper = false\<close>, and \<open>popperConfig\<close> with the
  placement resolved by \<open>getPlacement\<close>.
\<close>

definition render_body :: "world \<Rightarrow> render_values" where
  "render_body w =
    (let p = props w;
         autoClose' = with_default (Always True) (autoClose p);
         offset' = with_default (0, 2) (offset p);
         placement' = with_default BottomStart (placement p);
         popper0 = with_default True (popper p);
         visible' = with_default False (visible p);
         popper' = (if is_object (alignment p) then False else popper0)
     in \<lparr>rid = renders w,
         r_visible_prop = visible',
         r_visible = visible_state w,
         r_autoClose = autoClose',
         r_popper = popper',
         r_onHide = onHide p,
         r_onShow = onShow p,
         r_placement = getPlacement placement' (direction p) (alignment p)
                         (isRTL w (dropdownMenuRef w)),
         r_offset = offset'\<rparr>)"

text \<open>
  \<open>setVisible\<close> requests a state update; React processes it after the running handler or
  effect has returned (\<open>settle\<close> below). On an unmounted component it does nothing.
\<close>

definition setVisible :: "bool \<Rightarrow> world \<Rightarrow> world" where
  "setVisible v w = (if mounted w then w\<lparr>queued := Some v\<rparr> else w)"

text \<open>
  \<open>window.addEventListener\<close> ignores a listener that is already registered, and
  \<open>window.removeEventListener\<close> removes the listener that is the same function object.
\<close>

definition addEventListener :: "render_values \<Rightarrow> render_values list \<Rightarrow> render_values list" where
  "addEventListener h hs = (if rid h \<in> rid ` set hs then hs else hs @ [h])"

definition removeEventListener :: "render_values \<Rightarrow> render_values list \<Rightarrow> render_values list" where
  "removeEventListener h hs = filter (\<lambda>g. rid g \<noteq> rid h) hs"

text \<open>The function returned by the second effect.\<close>

definition effect_cleanup :: "render_values \<Rightarrow> world \<Rightarrow> world" where
  "effect_cleanup env w =
    (let w1 = (if r_popper env then w\<lparr>calls := calls w @ [DestroyPopper]\<rparr> else w);
         w2 = w1\<lparr>mouseup_listeners := removeEventListener env (mouseup_listeners w1)\<rparr>;
         w3 = w2\<lparr>keyup_listeners := removeEventListener env (keyup_listeners w2)\<rparr>
     in (if r_onHide env then w3\<lparr>calls := calls w3 @ [OnHide]\<rparr> else w3))"

text \<open>The four statements guarded by the \<open>if\<close> of the second effect.\<close>

definition effect_attach :: "render_values \<Rightarrow> element \<Rightarrow> element \<Rightarrow> world \<Rightarrow> world" where
  "effect_attach env t m w =
    (let w1 = (if r_popper env
               then w\<lparr>calls := calls w @ [InitPopper t m (r_placement env) (r_offset env)]\<rparr>
               else w);
         w2 = w1\<lparr>mouseup_listeners := addEventListener env (mouseup_listeners w1)\<rparr>;
         w3 = w2\<lparr>keyup_listeners := addEventListener env (keyup_listeners w2)\<rparr>
     in (if r_onShow env then w3\<lparr>calls := calls w3 @ [OnShow]\<rparr> else w3))"

text \<open>
  The second effect (dependencies \<open>[_visible]\<close>): it attaches when
  \<open>_visible && dropdownToggleRef.current && dropdownMenuRef.current\<close>, and returns its
  cleanup in every case.
\<close>

definition effect_visible_state :: "render_values \<Rightarrow> world \<Rightarrow> world" where
  "effect_visible_state env w =
    (let w' = (if r_visible env
               then (case dropdownToggleRef w of
                       None \<Rightarrow> w
                     | Some t \<Rightarrow>
                        (case dropdownMenuRef w of
                           None \<Rightarrow> w
                         | Some m \<Rightarrow> effect_attach env t m w))
               else w)
     in w'\<lparr>cleanup := Some env\<rparr>)"

text \<open>The first effect (dependencies \<open>[visible]\<close>): \<open>setVisible(visible)\<close>.\<close>

definition effect_visible_prop :: "render_values \<Rightarrow> world \<Rightarrow> world" where
  "effect_visible_prop env w = setVisible (r_visible_prop env) w"

text \<open>
  After a render React runs the effects whose dependencies differ from those of their
  last run: first the cleanups of those effects, then their bodies in the order of the
  source.
\<close>

definition run_effects :: "render_values \<Rightarrow> world \<Rightarrow> world" where
  "run_effects env w =
    (let changed1 = (dep_visible w \<noteq> Some (r_visible_prop env));
         changed2 = (dep_visible_state w \<noteq> Some (r_visible env));
         w1 = (if changed2
               then (case cleanup w of None \<Rightarrow> w | Some c \<Rightarrow> effect_cleanup c w)
               else w);
         w2 = (if changed1
               then effect_visible_prop env (w1\<lparr>dep_visible := Some (r_visible_prop env)\<rparr>)
               else w1);
         w3 = (if changed2
               then effect_visible_state env (w2\<lparr>dep_visible_state := Some (r_visible env)\<rparr>)
               else w2)
     in w3)"

definition rerender :: "world \<Rightarrow> world" where
  "rerender w = run_effects (render_body w) (w\<lparr>renders := Suc (renders w)\<rparr>)"

text \<open>
  Processing the requested state update: a value equal to the current state is dropped,
  any other value is stored and the component renders again, which may request a further
  update. The loop ends because only the first effect requests updates, and it runs only
  when the \<open>visible\<close> prop differs from its last run.
\<close>

definition settle_measure :: "world \<Rightarrow> nat" where
  "settle_measure w =
    (case queued w of
       None \<Rightarrow> 0
     | Some v \<Rightarrow>
        (if dep_visible w = Some (with_default False (visible (props w)))
         then 1 else 2))"

function settle :: "world \<Rightarrow> world" where
  "settle w =
    (case queued w of
       None \<Rightarrow> w
     | Some v \<Rightarrow>
        (let w' = w\<lparr>queued := None\<rparr>
         in if v = visible_state w' then w'
            else settle (rerender (w'\<lparr>visible_state := v\<rparr>))))"
  by pat_completeness auto
termination
proof (relation "measure settle_measure")
  show "wf (measure settle_measure)" by simp
next
  fix w :: world and v :: bool and x :: world
  assume q: "queued w = Some v" and x: "x = w\<lparr>queued := None\<rparr>"
  define u where "u = x\<lparr>visible_state := v\<rparr>"
  define vp where "vp = with_default False (visible (props w))"
  have cl: "queued (effect_cleanup c a) = queued a \<and>
      dep_visible (effect_cleanup c a) = dep_visible a \<and>
      props (effect_cleanup c a) = props a" for c a
    by (simp add: effect_cleanup_def Let_def)
  have at: "queued (effect_attach e t m a) = queued a \<and>
      dep_visible (effect_attach e t m a) = dep_visible a \<and>
      props (effect_attach e t m a) = props a" for e t m a
    by (simp add: effect_attach_def Let_def)
  have vs: "queued (effect_visible_state e a) = queued a \<and>
      dep_visible (effect_visible_state e a) = dep_visible a \<and>
      props (effect_visible_state e a) = props a" for e a
    by (simp add: effect_visible_state_def Let_def at split: option.split)
  have u: "queued u = None" "dep_visible u = dep_visible w" "props u = props w"
    by (simp_all add: u_def x)
  have rv: "r_visible_prop (render_body u) = vp"
    by (simp add: render_body_def Let_def vp_def u)
  have same: "dep_visible w = Some vp \<Longrightarrow> queued (rerender u) = None"
    by (simp add: rerender_def run_effects_def Let_def rv vs cl u split: option.split)
  have diff: "dep_visible (rerender u) = Some vp \<and> props (rerender u) = props w"
    by (simp add: rerender_def run_effects_def Let_def rv vs cl effect_visible_prop_def
        setVisible_def u split: option.split)
  have "settle_measure (rerender u) < settle_measure w"
  proof (cases "dep_visible w = Some vp")
    case True
    with same q show ?thesis by (simp add: settle_measure_def vp_def)
  next
    case False
    with diff q show ?thesis by (simp add: settle_measure_def vp_def split: option.split)
  qed
  then show "(rerender (x\<lparr>visible_state := v\<rparr>), w) \<in> measure settle_measure"
    by (simp add: u_def)
qed

section \<open>The two global handlers\<close>

text \<open>\<open>handleKeyup\<close>; the second argument is \<open>event.key\<close>.\<close>

definition handleKeyup :: "render_values \<Rightarrow> string \<Rightarrow> world \<Rightarrow> world" where
  "handleKeyup env key w =
    (if r_autoClose env = Always False then w
     else if key = ''Escape'' then setVisible False w
     else w)"

text \<open>\<open>setTimeout(() => setVisible(false), 1)\<close>: one more pending callback.\<close>

definition setTimeout_hide :: "world \<Rightarrow> world" where
  "setTimeout_hide w = w\<lparr>timeouts := Suc (timeouts w)\<rparr>"

text \<open>
  \<open>handleMouseUp\<close>; the second argument is \<open>event.target\<close>. The refs are read when the
  handler runs.
\<close>

definition handleMouseUp :: "render_values \<Rightarrow> node \<Rightarrow> world \<Rightarrow> world" where
  "handleMouseUp env target w =
    (case dropdownToggleRef w of
       None \<Rightarrow> w
     | Some t \<Rightarrow>
        (case dropdownMenuRef w of
           None \<Rightarrow> w
         | Some m \<Rightarrow>
            if target \<in> t then w
            else if r_autoClose env = Always True \<or>
                    (r_autoClose env = Inside \<and> target \<in> m) \<or>
                    (r_autoClose env = Outside \<and> target \<notin> m)
                 then setTimeout_hide w
                 else w))"

text \<open>A pending timeout callback runs: \<open>setVisible(false)\<close>.\<close>

definition timeout_fires :: "world \<Rightarrow> world" where
  "timeout_fires w =
    (if timeouts w = 0 then w
     else setVisible False (w\<lparr>timeouts := timeouts w - 1\<rparr>))"

section \<open>The life of a mounted component\<close>

text \<open>
  Unmounting runs the cleanup of the second effect and detaches the refs.
\<close>

definition unmount :: "world \<Rightarrow> world" where
  "unmount w =
    (let w1 = (case cleanup w of None \<Rightarrow> w | Some c \<Rightarrow> effect_cleanup c w)
     in w1\<lparr>mounted := False, cleanup := None,
           dropdownToggleRef := None, dropdownMenuRef := None\<rparr>)"

text \<open>
  Mounting: \<open>useState(visible)\<close> initialises the state, the first render happens with
  empty refs, the commit attaches to the refs the elements \<open>t\<close> and \<open>m\<close> of the toggle and
  the menu among the children (\<open>None\<close> when there is no such child), and then both effects
  run.
\<close>

definition initial_world :: "CDropdownProps \<Rightarrow> (element option \<Rightarrow> bool) \<Rightarrow> world" where
  "initial_world p rtl =
    \<lparr>mounted = True, props = p,
     visible_state = with_default False (visible p),
     queued = None, dropdownToggleRef = None, dropdownMenuRef = None,
     isRTL = rtl, renders = 0, dep_visible = None, dep_visible_state = None,
     cleanup = None, mouseup_listeners = [], keyup_listeners = [],
     timeouts = 0, calls = []\<rparr>"

definition mount ::
  "CDropdownProps \<Rightarrow> (element option \<Rightarrow> bool) \<Rightarrow> element option \<Rightarrow> element option \<Rightarrow> world" where
  "mount p rtl t m =
    (let w0 = initial_world p rtl;
         env = render_body w0;
         w1 = w0\<lparr>dropdownToggleRef := t, dropdownMenuRef := m, renders := Suc 0\<rparr>
     in settle (run_effects env w1))"

text \<open>
  What can happen to a mounted component. The configuration is fixed at mount; of the
  props only \<open>visible\<close> is changed by the parent. \<open>ContextSetVisible\<close> is a descendant
  calling the \<open>setVisible\<close> it finds in the context (the toggle does so). \<open>MouseUp\<close> and
  \<open>KeyUp\<close> are the events on \<open>window\<close>, delivered to the listeners registered there.
\<close>

datatype event =
    SetVisibleProp bool
  | ContextSetVisible bool
  | MouseUp node
  | KeyUp string
  | Timeout
  | Unmount

fun step :: "event \<Rightarrow> world \<Rightarrow> world" where
  "step (SetVisibleProp b) w =
    (if mounted w then settle (rerender (w\<lparr>props := (props w)\<lparr>visible := Some b\<rparr>\<rparr>)) else w)"
| "step (ContextSetVisible v) w = settle (setVisible v w)"
| "step (MouseUp n) w =
    settle (foldl (\<lambda>a h. handleMouseUp h n a) w (mouseup_listeners w))"
| "step (KeyUp k) w =
    settle (foldl (\<lambda>a h. handleKeyup h k a) w (keyup_listeners w))"
| "step Timeout w = settle (timeout_fires w)"
| "step Unmount w = (if mounted w then unmount w else w)"

fun run :: "event list \<Rightarrow> world \<Rightarrow> world" where
  "run [] w = w"
| "run (e # es) w = run es (step e w)"

section \<open>Invariants of the reachable states\<close>

text \<open>Between two events nothing is pending and both effects have seen the current values.\<close>

definition stable :: "world \<Rightarrow> bool" where
  "stable w \<longleftrightarrow>
     mounted w \<and> queued w = None \<and>
     dep_visible w = Some (with_default False (visible (props w))) \<and>
     dep_visible_state w = Some (visible_state w)"

text \<open>The condition under which the second effect attaches.\<close>

definition attached :: "world \<Rightarrow> bool" where
  "attached w \<longleftrightarrow>
     visible_state w \<and> dropdownToggleRef w \<noteq> None \<and> dropdownMenuRef w \<noteq> None"

text \<open>
  The invariant of a component mounted with props \<open>p\<close> and elements \<open>t\<close> and \<open>m\<close>: the
  configuration and the refs stay as they were at mount, the pending cleanup closes over
  the configuration, and the listeners on \<open>window\<close> are exactly the handlers that this
  cleanup will remove.
\<close>

definition dropdown_inv :: "CDropdownProps \<Rightarrow> element option \<Rightarrow> element option \<Rightarrow> world \<Rightarrow> bool" where
  "dropdown_inv p t m w =
    (if mounted w
     then stable w \<and>
          (props w)\<lparr>visible := None\<rparr> = p\<lparr>visible := None\<rparr> \<and>
          dropdownToggleRef w = t \<and> dropdownMenuRef w = m \<and>
          (case cleanup w of
             None \<Rightarrow> False
           | Some c \<Rightarrow>
               r_autoClose c = with_default (Always True) (autoClose p) \<and>
               r_popper c = (\<not> is_object (alignment p) \<and> with_default True (popper p)) \<and>
               r_onHide c = onHide p \<and>
               mouseup_listeners w = (if attached w then [c] else []) \<and>
               keyup_listeners w = (if attached w then [c] else []))
     else queued w = None \<and> cleanup w = None \<and>
          mouseup_listeners w = [] \<and> keyup_listeners w = [])"

section \<open>A concrete dropdown\<close>

text \<open>
  A dropdown with both callbacks and every other prop left to its default, on a
  left-to-right page, with the toggle occupying node 1 and the menu node 2.
\<close>

definition example_props :: CDropdownProps where
  "example_props =
    \<lparr>alignment = None, autoClose = None, direction = None, offset = None,
     onHide = True, onShow = True, placement = None, popper = None, visible = None\<rparr>"

definition ltr :: "element option \<Rightarrow> bool" where
  "ltr el = False"

definition example_mounted :: world where
  "example_mounted = mount example_props ltr (Some {1}) (Some {2})"

definition example_shown :: world where
  "example_shown = step (SetVisibleProp True) example_mounted"

text \<open>The same dropdown without a toggle among its children, and with responsive alignment.\<close>

definition example_untoggled :: world where
  "example_untoggled = mount example_props ltr None (Some {2})"

definition example_responsive :: CDropdownProps where
  "example_responsive =
     example_props\<lparr>alignment := Some (Responsive (Md End)), popper := Some True\<rparr>"

text \<open>The dropdown without a toggle, after its \<open>visible\<close> prop was set to true.\<close>

definition example_untoggled_shown :: world where
  "example_untoggled_shown = run [SetVisibleProp True] (mount example_props ltr None (Some {2}))"

text \<open>The first dropdown with \<open>autoClose='outside'\<close>, shown.\<close>

definition example_outside :: CDropdownProps where
  "example_outside = example_props\<lparr>autoClose := Some Outside\<rparr>"

definition example_outside_shown :: world where
  "example_outside_shown =
     run [SetVisibleProp True] (mount example_outside ltr (Some {1}) (Some {2}))"

text \<open>The first dropdown with \<open>autoClose={false}\<close>, shown.\<close>

definition example_never_shown :: world where
  "example_never_shown =
     run [SetVisibleProp True]
       (mount (example_props\<lparr>autoClose := Some (Always False)\<rparr>) ltr (Some {1}) (Some {2}))"

section \<open>Properties of the placement resolver\<close>

lemma Placements_UNIV:
  "(UNIV :: Placements set) =
     {Auto, TopEnd, Top, TopStart, BottomEnd, Bottom, BottomStart,
      RightStart, Right, RightEnd, LeftStart, Left, LeftEnd}"
proof -
  have "x \<in> {Auto, TopEnd, Top, TopStart, BottomEnd, Bottom, BottomStart,
      RightStart, Right, RightEnd, LeftStart, Left, LeftEnd}" for x :: Placements
    by (cases x) simp_all
  then show ?thesis by blast
qed

lemma card_Placements: "card (UNIV :: Placements set) = 13"
  unfolding Placements_UNIV by simp

lemma getPlacement_default: "getPlacement p None None r = p"
  by (simp add: getPlacement_def)

text \<open>
  Claim C1. Whatever base placement is requested, direction \<open>dropup\<close> resolves to
  \<open>top-start\<close>, or to \<open>top-end\<close> under right-to-left, when the later alignment rule does
  not apply; and alignment \<open>end\<close>, the last rule, resolves to \<open>bottom-end\<close>, or to
  \<open>bottom-start\<close> under right-to-left, for every direction.
\<close>

theorem getPlacement_dropup_and_end:
  "(a \<noteq> Some (Plain End) \<longrightarrow>
      getPlacement p (Some Dropup) a False = TopStart \<and>
      getPlacement p (Some Dropup) a True = TopEnd) \<and>
   getPlacement p d (Some (Plain End)) False = BottomEnd \<and>
   getPlacement p d (Some (Plain End)) True = BottomStart"
  by (simp add: getPlacement_def)

theorem getPlacement_dropup_and_end_witness:
  "getPlacement Left (Some Dropup) None False = TopStart \<and>
   getPlacement Left (Some Dropup) None True = TopEnd \<and>
   getPlacement Left (Some Dropend) (Some (Plain End)) False = BottomEnd \<and>
   getPlacement Left (Some Dropend) (Some (Plain End)) True = BottomStart"
  using getPlacement_dropup_and_end [of None Left "Some Dropend"] by simp

text \<open>
  Claim C2. The rules apply in the listed order and a later rule overrides an earlier
  one: when one of the four direction rules applies together with alignment \<open>end\<close>, the
  result is the output of the alignment rule, and it differs from what the direction rule
  alone produces.
\<close>

theorem getPlacement_alignment_overrides_direction:
  "d \<in> {Dropup, DropupCenter, Dropend, Dropstart} \<Longrightarrow>
   getPlacement p (Some d) (Some (Plain End)) r = (if r then BottomStart else BottomEnd) \<and>
   getPlacement p (Some d) (Some (Plain End)) r \<noteq> getPlacement p (Some d) None r"
  by (auto simp: getPlacement_def)

theorem getPlacement_alignment_overrides_direction_witness:
  "getPlacement Auto (Some Dropup) (Some (Plain End)) False = BottomEnd \<and>
   getPlacement Auto (Some Dropup) None False = TopStart"
  using getPlacement_alignment_overrides_direction [of Dropup Auto False]
  by (simp add: getPlacement_def)

text \<open>
  Claim C7, as stated, fails: the placement type has thirteen members, and the resolver
  hands the requested base placement through when no rule applies, so its values are not
  confined to any set of nine placements.
\<close>

theorem getPlacement_not_nine_valued:
  "\<not> (\<exists>S. card S = 9 \<and> (\<forall>p d a r. getPlacement p d a r \<in> S))"
proof
  assume "\<exists>S. card S = 9 \<and> (\<forall>p d a r. getPlacement p d a r \<in> S)"
  then obtain S where c: "card S = 9" and m: "\<forall>p d a r. getPlacement p d a r \<in> S"
    by blast
  have "p \<in> S" for p
    using m getPlacement_default [of p False] by metis
  then have "S = UNIV" by blast
  with c card_Placements show False by simp
qed

text \<open>
  Claim C7, amended. For every base placement, direction, alignment and right-to-left
  flag the resolver returns a member of the thirteen-member placement type: the requested
  base placement itself or one of the seven placements its rules name. It reads nothing
  but its four arguments, so equal arguments give equal results.
\<close>

theorem getPlacement_range:
  "getPlacement p d a r \<in>
     {p, TopStart, TopEnd, Top, RightStart, LeftStart, BottomEnd, BottomStart} \<and>
   card (UNIV :: Placements set) = 13 \<and>
   (p = p' \<and> d = d' \<and> a = a' \<and> r = r' \<longrightarrow>
      getPlacement p d a r = getPlacement p' d' a' r')"
  by (simp add: getPlacement_def card_Placements)

theorem getPlacement_range_witness:
  "getPlacement Bottom (Some Dropstart) (Some (Plain Start)) True = RightStart \<and>
   card (UNIV :: Placements set) = 13"
  using getPlacement_range [of Bottom "Some Dropstart" "Some (Plain Start)" True
      Bottom "Some Dropstart" "Some (Plain Start)" True]
  by (simp add: getPlacement_def)

text \<open>
  Claim C8. The resolver has no error case: for a direction that is none of \<open>dropup\<close>,
  \<open>dropup-center\<close>, \<open>dropend\<close>, \<open>dropstart\<close> (that is \<open>center\<close> or absent) and an alignment
  other than \<open>end\<close>, it returns the requested base placement unchanged.
\<close>

theorem getPlacement_falls_through:
  "d \<notin> {Some Dropup, Some DropupCenter, Some Dropend, Some Dropstart} \<Longrightarrow>
   a \<noteq> Some (Plain End) \<Longrightarrow>
   getPlacement p d a r = p"
  by (simp add: getPlacement_def)

theorem getPlacement_falls_through_witness:
  "getPlacement RightEnd (Some Center) (Some (Responsive (Md End))) True = RightEnd"
  using getPlacement_falls_through [of "Some Center" "Some (Responsive (Md End))" RightEnd True]
  by simp

section \<open>The component step by step\<close>

text \<open>
  What each part of the component leaves unchanged, the result of a render in the three
  situations that occur, and the proof that the invariant holds in every state reached
  from a mount.
\<close>

subsection \<open>What the effects and a render change\<close>

lemma effect_cleanup_sel [simp]:
  "mounted (effect_cleanup c w) = mounted w"
  "props (effect_cleanup c w) = props w"
  "visible_state (effect_cleanup c w) = visible_state w"
  "queued (effect_cleanup c w) = queued w"
  "dropdownToggleRef (effect_cleanup c w) = dropdownToggleRef w"
  "dropdownMenuRef (effect_cleanup c w) = dropdownMenuRef w"
  "isRTL (effect_cleanup c w) = isRTL w"
  "renders (effect_cleanup c w) = renders w"
  "dep_visible (effect_cleanup c w) = dep_visible w"
  "dep_visible_state (effect_cleanup c w) = dep_visible_state w"
  "cleanup (effect_cleanup c w) = cleanup w"
  "timeouts (effect_cleanup c w) = timeouts w"
  "mouseup_listeners (effect_cleanup c w) = removeEventListener c (mouseup_listeners w)"
  "keyup_listeners (effect_cleanup c w) = removeEventListener c (keyup_listeners w)"
  "calls (effect_cleanup c w) =
     calls w @ (if r_popper c then [DestroyPopper] else []) @ (if r_onHide c then [OnHide] else [])"
  by (simp_all add: effect_cleanup_def Let_def)

lemma effect_attach_sel [simp]:
  "mounted (effect_attach e t m w) = mounted w"
  "props (effect_attach e t m w) = props w"
  "visible_state (effect_attach e t m w) = visible_state w"
  "queued (effect_attach e t m w) = queued w"
  "dropdownToggleRef (effect_attach e t m w) = dropdownToggleRef w"
  "dropdownMenuRef (effect_attach e t m w) = dropdownMenuRef w"
  "isRTL (effect_attach e t m w) = isRTL w"
  "renders (effect_attach e t m w) = renders w"
  "dep_visible (effect_attach e t m w) = dep_visible w"
  "dep_visible_state (effect_attach e t m w) = dep_visible_state w"
  "cleanup (effect_attach e t m w) = cleanup w"
  "timeouts (effect_attach e t m w) = timeouts w"
  "mouseup_listeners (effect_attach e t m w) = addEventListener e (mouseup_listeners w)"
  "keyup_listeners (effect_attach e t m w) = addEventListener e (keyup_listeners w)"
  "calls (effect_attach e t m w) =
     calls w @ (if r_popper e then [InitPopper t m (r_placement e) (r_offset e)] else [])
             @ (if r_onShow e then [OnShow] else [])"
  by (simp_all add: effect_attach_def Let_def)

lemma effect_visible_state_sel [simp]:
  "mounted (effect_visible_state e w) = mounted w"
  "props (effect_visible_state e w) = props w"
  "visible_state (effect_visible_state e w) = visible_state w"
  "queued (effect_visible_state e w) = queued w"
  "dropdownToggleRef (effect_visible_state e w) = dropdownToggleRef w"
  "dropdownMenuRef (effect_visible_state e w) = dropdownMenuRef w"
  "isRTL (effect_visible_state e w) = isRTL w"
  "renders (effect_visible_state e w) = renders w"
  "dep_visible (effect_visible_state e w) = dep_visible w"
  "dep_visible_state (effect_visible_state e w) = dep_visible_state w"
  "cleanup (effect_visible_state e w) = Some e"
  "timeouts (effect_visible_state e w) = timeouts w"
  by (simp_all add: effect_visible_state_def Let_def split: option.split)

lemma effect_visible_state_listeners:
  "mouseup_listeners (effect_visible_state e w) =
     (if r_visible e \<and> dropdownToggleRef w \<noteq> None \<and> dropdownMenuRef w \<noteq> None
      then addEventListener e (mouseup_listeners w) else mouseup_listeners w)"
  "keyup_listeners (effect_visible_state e w) =
     (if r_visible e \<and> dropdownToggleRef w \<noteq> None \<and> dropdownMenuRef w \<noteq> None
      then addEventListener e (keyup_listeners w) else keyup_listeners w)"
  by (auto simp: effect_visible_state_def Let_def split: option.split)

lemma effect_visible_state_calls:
  "calls (effect_visible_state e w) =
     calls w @
     (case (r_visible e, dropdownToggleRef w, dropdownMenuRef w) of
        (True, Some t, Some m) \<Rightarrow>
          (if r_popper e then [InitPopper t m (r_placement e) (r_offset e)] else []) @
          (if r_onShow e then [OnShow] else [])
      | _ \<Rightarrow> [])"
  by (auto simp: effect_visible_state_def Let_def split: option.split bool.split)

lemma render_body_sel [simp]:
  "rid (render_body w) = renders w"
  "r_visible_prop (render_body w) = with_default False (visible (props w))"
  "r_visible (render_body w) = visible_state w"
  "r_autoClose (render_body w) = with_default (Always True) (autoClose (props w))"
  "r_popper (render_body w) =
     (\<not> is_object (alignment (props w)) \<and> with_default True (popper (props w)))"
  "r_onHide (render_body w) = onHide (props w)"
  "r_onShow (render_body w) = onShow (props w)"
  by (simp_all add: render_body_def Let_def)

subsection \<open>Processing a state update\<close>

lemma settle_None: "queued w = None \<Longrightarrow> settle w = w"
  by (subst settle.simps) simp

lemma settle_same:
  "queued w = Some v \<Longrightarrow> v = visible_state w \<Longrightarrow> settle w = w\<lparr>queued := None\<rparr>"
  by (subst settle.simps) simp

lemma settle_diff:
  "queued w = Some v \<Longrightarrow> v \<noteq> visible_state w \<Longrightarrow>
   settle w = settle (rerender (w\<lparr>queued := None, visible_state := v\<rparr>))"
  by (subst settle.simps) (simp add: Let_def)

declare settle.simps [simp del]

lemma queued_None_id: "queued w = None \<Longrightarrow> w\<lparr>queued := None\<rparr> = w"
  by (cases w) simp

lemma listener_simps [simp]:
  "removeEventListener c [] = []"
  "removeEventListener c [c] = []"
  "addEventListener e [] = [e]"
  by (simp_all add: removeEventListener_def addEventListener_def)

lemma rerender_unchanged:
  assumes "dep_visible u = Some (with_default False (visible (props u)))"
    and "dep_visible_state u = Some (visible_state u)"
  shows "rerender u = u\<lparr>renders := Suc (renders u)\<rparr>"
  using assms by (simp add: rerender_def run_effects_def Let_def)

lemma rerender_state_changed:
  assumes "dep_visible u = Some (with_default False (visible (props u)))"
    and "dep_visible_state u \<noteq> Some (visible_state u)"
  shows "rerender u =
    effect_visible_state (render_body u)
      ((case cleanup u of
          None \<Rightarrow> u\<lparr>renders := Suc (renders u)\<rparr>
        | Some c \<Rightarrow> effect_cleanup c (u\<lparr>renders := Suc (renders u)\<rparr>))
       \<lparr>dep_visible_state := Some (visible_state u)\<rparr>)"
  using assms by (simp add: rerender_def run_effects_def Let_def)

lemma rerender_prop_changed:
  assumes "dep_visible u \<noteq> Some (with_default False (visible (props u)))"
    and "dep_visible_state u = Some (visible_state u)"
  shows "rerender u =
    setVisible (with_default False (visible (props u)))
      (u\<lparr>renders := Suc (renders u),
         dep_visible := Some (with_default False (visible (props u)))\<rparr>)"
  using assms by (simp add: rerender_def run_effects_def Let_def effect_visible_prop_def)

lemma settle_setVisible_same:
  "stable w \<Longrightarrow> v = visible_state w \<Longrightarrow> settle (setVisible v w) = w"
  by (simp add: stable_def setVisible_def settle_same queued_None_id)

lemma settle_setVisible_changed:
  assumes "stable w" and "v \<noteq> visible_state w"
  shows "settle (setVisible v w) = rerender (w\<lparr>visible_state := v\<rparr>)"
proof -
  let ?u = "w\<lparr>visible_state := v\<rparr>"
  have q: "w\<lparr>queued := None\<rparr> = w"
    using assms(1) by (simp add: stable_def queued_None_id)
  have "settle (setVisible v w) = settle (rerender ((w\<lparr>queued := None\<rparr>)\<lparr>visible_state := v\<rparr>))"
    using assms by (simp add: stable_def setVisible_def settle_diff)
  also have "\<dots> = settle (rerender ?u)" by (simp only: q)
  also have "\<dots> = rerender ?u"
  proof (rule settle_None)
    show "queued (rerender ?u) = None"
      using assms
      by (subst rerender_state_changed) (auto simp: stable_def split: option.split)
  qed
  finally show ?thesis .
qed

subsection \<open>The invariant holds in every reachable state\<close>

lemma same_config_fields:
  assumes "q\<lparr>visible := None\<rparr> = p\<lparr>visible := None\<rparr>"
  shows "alignment q = alignment p" "autoClose q = autoClose p" "direction q = direction p"
    "offset q = offset p" "onHide q = onHide p" "onShow q = onShow p"
    "placement q = placement p" "popper q = popper p"
  using assms by (cases p; cases q; simp)+

lemma same_config_visible:
  "q\<lparr>visible := None\<rparr> = p\<lparr>visible := None\<rparr> \<Longrightarrow>
   (q\<lparr>visible := b\<rparr>)\<lparr>visible := None\<rparr> = p\<lparr>visible := None\<rparr>"
  by simp

lemma invD:
  assumes "dropdown_inv p t m w" and "mounted w"
  obtains c where "stable w" "(props w)\<lparr>visible := None\<rparr> = p\<lparr>visible := None\<rparr>"
    "dropdownToggleRef w = t" "dropdownMenuRef w = m" "cleanup w = Some c"
    "r_autoClose c = with_default (Always True) (autoClose p)"
    "r_popper c = (\<not> is_object (alignment p) \<and> with_default True (popper p))"
    "r_onHide c = onHide p"
    "mouseup_listeners w = (if attached w then [c] else [])"
    "keyup_listeners w = (if attached w then [c] else [])"
proof (cases "cleanup w")
  case None
  with assms show ?thesis by (simp add: dropdown_inv_def)
next
  case (Some c)
  with assms that [of c] show ?thesis by (simp add: dropdown_inv_def)
qed

lemma invI:
  assumes "mounted w" "stable w" "(props w)\<lparr>visible := None\<rparr> = p\<lparr>visible := None\<rparr>"
    "dropdownToggleRef w = t" "dropdownMenuRef w = m" "cleanup w = Some c"
    "r_autoClose c = with_default (Always True) (autoClose p)"
    "r_popper c = (\<not> is_object (alignment p) \<and> with_default True (popper p))"
    "r_onHide c = onHide p"
    "mouseup_listeners w = (if attached w then [c] else [])"
    "keyup_listeners w = (if attached w then [c] else [])"
  shows "dropdown_inv p t m w"
  using assms by (simp add: dropdown_inv_def)

lemma inv_queued_irrelevant:
  "dropdown_inv p t m w \<Longrightarrow> mounted w \<Longrightarrow> settle (setVisible (visible_state w) w) = w"
  by (erule (1) invD) (simp add: settle_setVisible_same)

lemma settle_setVisible_flip:
  assumes "stable w" and "v \<noteq> visible_state w" and "cleanup w = Some c"
  shows "settle (setVisible v w) =
      effect_visible_state (render_body (w\<lparr>visible_state := v\<rparr>))
        ((effect_cleanup c (w\<lparr>visible_state := v, renders := Suc (renders w)\<rparr>))
          \<lparr>dep_visible_state := Some v\<rparr>)"
  using assms
  by (simp add: settle_setVisible_changed rerender_state_changed stable_def)

lemma inv_setVisible:
  assumes i: "dropdown_inv p t m w" and mo: "mounted w"
  shows "dropdown_inv p t m (settle (setVisible v w))"
proof (cases "v = visible_state w")
  case True
  with i mo show ?thesis by (simp add: inv_queued_irrelevant)
next
  case False
  from i mo obtain c where st: "stable w"
    and pr: "(props w)\<lparr>visible := None\<rparr> = p\<lparr>visible := None\<rparr>"
    and rt: "dropdownToggleRef w = t" and rm: "dropdownMenuRef w = m"
    and c: "cleanup w = Some c"
    and ml: "mouseup_listeners w = (if attached w then [c] else [])"
    and kl: "keyup_listeners w = (if attached w then [c] else [])"
    by (rule invD)
  let ?e = "render_body (w\<lparr>visible_state := v\<rparr>)"
  let ?r = "settle (setVisible v w)"
  note r = settle_setVisible_flip [OF st False c]
  note f = same_config_fields [OF pr]
  show ?thesis
  proof (rule invI [where c = ?e])
    show "mounted ?r" using mo by (simp add: r)
    show "stable ?r" using st by (simp add: r stable_def)
    show "(props ?r)\<lparr>visible := None\<rparr> = p\<lparr>visible := None\<rparr>" using pr by (simp add: r)
    show "dropdownToggleRef ?r = t" using rt by (simp add: r)
    show "dropdownMenuRef ?r = m" using rm by (simp add: r)
    show "cleanup ?r = Some ?e" by (simp add: r)
    show "r_autoClose ?e = with_default (Always True) (autoClose p)" by (simp add: f)
    show "r_popper ?e = (\<not> is_object (alignment p) \<and> with_default True (popper p))"
      by (simp add: f)
    show "r_onHide ?e = onHide p" by (simp add: f)
    show "mouseup_listeners ?r = (if attached ?r then [?e] else [])"
      using ml by (simp add: r attached_def effect_visible_state_listeners)
    show "keyup_listeners ?r = (if attached ?r then [?e] else [])"
      using kl by (simp add: r attached_def effect_visible_state_listeners)
  qed
qed

lemma inv_timeouts [simp]: "dropdown_inv p t m (w\<lparr>timeouts := k\<rparr>) = dropdown_inv p t m w"
  by (simp add: dropdown_inv_def stable_def attached_def cong: option.case_cong)

lemma inv_unmounted:
  "dropdown_inv p t m w \<Longrightarrow> \<not> mounted w \<Longrightarrow>
   queued w = None \<and> cleanup w = None \<and> mouseup_listeners w = [] \<and> keyup_listeners w = []"
  by (simp add: dropdown_inv_def)

lemma inv_queued: "dropdown_inv p t m w \<Longrightarrow> queued w = None"
  by (cases "mounted w") (auto simp: inv_unmounted elim: invD simp: stable_def)

lemma initial_world_sel [simp]:
  "mounted (initial_world p rtl)"
  "props (initial_world p rtl) = p"
  "visible_state (initial_world p rtl) = with_default False (visible p)"
  "queued (initial_world p rtl) = None"
  "dropdownToggleRef (initial_world p rtl) = None"
  "dropdownMenuRef (initial_world p rtl) = None"
  "isRTL (initial_world p rtl) = rtl"
  "renders (initial_world p rtl) = 0"
  "dep_visible (initial_world p rtl) = None"
  "dep_visible_state (initial_world p rtl) = None"
  "cleanup (initial_world p rtl) = None"
  "mouseup_listeners (initial_world p rtl) = []"
  "keyup_listeners (initial_world p rtl) = []"
  "timeouts (initial_world p rtl) = 0"
  "calls (initial_world p rtl) = []"
  by (simp_all add: initial_world_def)

lemma mount_eq:
  "mount p rtl t m =
    (effect_visible_state (render_body (initial_world p rtl))
      ((initial_world p rtl)
         \<lparr>dropdownToggleRef := t, dropdownMenuRef := m, renders := Suc 0,
          dep_visible := Some (with_default False (visible p)),
          queued := Some (with_default False (visible p)),
          dep_visible_state := Some (with_default False (visible p))\<rparr>))
    \<lparr>queued := None\<rparr>"
proof -
  let ?w0 = "initial_world p rtl"
  let ?e = "render_body ?w0"
  let ?w1 = "?w0\<lparr>dropdownToggleRef := t, dropdownMenuRef := m, renders := Suc 0\<rparr>"
  let ?w2 = "effect_visible_state ?e
      (?w0\<lparr>dropdownToggleRef := t, dropdownMenuRef := m, renders := Suc 0,
            dep_visible := Some (with_default False (visible p)),
            queued := Some (with_default False (visible p)),
            dep_visible_state := Some (with_default False (visible p))\<rparr>)"
  have re: "run_effects ?e ?w1 = ?w2"
    by (simp add: run_effects_def Let_def effect_visible_prop_def setVisible_def)
  have "mount p rtl t m = settle ?w2"
    unfolding mount_def Let_def re ..
  also have "\<dots> = ?w2\<lparr>queued := None\<rparr>"
    by (rule settle_same [where v = "with_default False (visible p)"]) simp_all
  finally show ?thesis .
qed

lemma inv_mount: "dropdown_inv p t m (mount p rtl t m)"
  unfolding mount_eq
  by (rule invI [where c = "render_body (initial_world p rtl)"])
     (simp_all add: stable_def attached_def effect_visible_state_listeners)

lemma inv_keyup_listeners:
  assumes "dropdown_inv p t m w"
  shows "keyup_listeners w = [] \<or>
         (mounted w \<and> attached w \<and> keyup_listeners w = [the (cleanup w)])"
proof (cases "mounted w")
  case True
  from assms True obtain c where "cleanup w = Some c"
    and "keyup_listeners w = (if attached w then [c] else [])"
    by (rule invD)
  with True show ?thesis by (cases "attached w") simp_all
next
  case False
  with assms show ?thesis by (simp add: inv_unmounted)
qed

lemma inv_mouseup_listeners:
  assumes "dropdown_inv p t m w"
  shows "mouseup_listeners w = [] \<or>
         (mounted w \<and> attached w \<and> mouseup_listeners w = [the (cleanup w)])"
proof (cases "mounted w")
  case True
  from assms True obtain c where "cleanup w = Some c"
    and "mouseup_listeners w = (if attached w then [c] else [])"
    by (rule invD)
  with True show ?thesis by (cases "attached w") simp_all
next
  case False
  with assms show ?thesis by (simp add: inv_unmounted)
qed

lemma handleKeyup_cases:
  "handleKeyup h k w = w \<or> handleKeyup h k w = setVisible False w"
  by (simp add: handleKeyup_def)

lemma handleMouseUp_cases:
  "handleMouseUp h n w = w \<or> handleMouseUp h n w = w\<lparr>timeouts := Suc (timeouts w)\<rparr>"
  by (simp add: handleMouseUp_def setTimeout_hide_def split: option.split)

lemma foldl_handleKeyup_inv:
  assumes "dropdown_inv p t m w"
  shows "foldl (\<lambda>a h. handleKeyup h k a) w (keyup_listeners w) = w \<or>
         foldl (\<lambda>a h. handleKeyup h k a) w (keyup_listeners w) = setVisible False w"
  using inv_keyup_listeners [OF assms] handleKeyup_cases [of "the (cleanup w)" k w]
  by auto

lemma foldl_handleMouseUp_inv:
  assumes "dropdown_inv p t m w"
  shows "foldl (\<lambda>a h. handleMouseUp h n a) w (mouseup_listeners w) = w \<or>
         foldl (\<lambda>a h. handleMouseUp h n a) w (mouseup_listeners w) =
           w\<lparr>timeouts := Suc (timeouts w)\<rparr>"
  using inv_mouseup_listeners [OF assms] handleMouseUp_cases [of "the (cleanup w)" n w]
  by auto

lemma inv_settle_setVisible:
  assumes "dropdown_inv p t m w"
  shows "dropdown_inv p t m (settle (setVisible v w))"
proof (cases "mounted w")
  case True
  with assms show ?thesis by (rule inv_setVisible)
next
  case False
  with assms show ?thesis by (simp add: setVisible_def settle_None inv_queued)
qed

lemma inv_set_prop:
  assumes i: "dropdown_inv p t m w" and mo: "mounted w"
  shows "dropdown_inv p t m (w\<lparr>props := (props w)\<lparr>visible := Some b\<rparr>, renders := k,
                      dep_visible := Some b\<rparr>)"
proof -
  from i mo obtain c where st: "stable w"
    and pr: "(props w)\<lparr>visible := None\<rparr> = p\<lparr>visible := None\<rparr>"
    and rt: "dropdownToggleRef w = t" and rm: "dropdownMenuRef w = m"
    and c: "cleanup w = Some c"
    and ac: "r_autoClose c = with_default (Always True) (autoClose p)"
    and po: "r_popper c = (\<not> is_object (alignment p) \<and> with_default True (popper p))"
    and oh: "r_onHide c = onHide p"
    and ml: "mouseup_listeners w = (if attached w then [c] else [])"
    and kl: "keyup_listeners w = (if attached w then [c] else [])"
    by (rule invD)
  show ?thesis
  proof (rule invI [where c = c])
    show "stable (w\<lparr>props := (props w)\<lparr>visible := Some b\<rparr>, renders := k,
                      dep_visible := Some b\<rparr>)"
      using st by (simp add: stable_def with_default_def)
  qed (use mo pr rt rm c ac po oh ml kl in \<open>simp_all add: attached_def\<close>)
qed

lemma step_SetVisibleProp:
  assumes st: "stable w"
  shows "step (SetVisibleProp b) w =
     (if b = with_default False (visible (props w))
      then w\<lparr>props := (props w)\<lparr>visible := Some b\<rparr>, renders := Suc (renders w)\<rparr>
      else settle (setVisible b
             (w\<lparr>props := (props w)\<lparr>visible := Some b\<rparr>, renders := Suc (renders w),
                dep_visible := Some b\<rparr>)))"
proof (cases "b = with_default False (visible (props w))")
  case True
  let ?u = "w\<lparr>props := (props w)\<lparr>visible := Some b\<rparr>\<rparr>"
  have "rerender ?u = ?u\<lparr>renders := Suc (renders ?u)\<rparr>"
    using st True by (intro rerender_unchanged) (simp_all add: stable_def with_default_def)
  then show ?thesis
    using st True by (simp add: stable_def settle_None)
next
  case False
  let ?u = "w\<lparr>props := (props w)\<lparr>visible := Some b\<rparr>\<rparr>"
  have "rerender ?u = setVisible (with_default False (visible (props ?u)))
      (?u\<lparr>renders := Suc (renders ?u),
         dep_visible := Some (with_default False (visible (props ?u)))\<rparr>)"
    using st False by (intro rerender_prop_changed) (simp_all add: stable_def with_default_def)
  then show ?thesis
    using st False by (simp add: stable_def with_default_def)
qed

lemma inv_unmount:
  assumes i: "dropdown_inv p t m w" and mo: "mounted w"
  shows "dropdown_inv p t m (unmount w)"
proof -
  from i mo obtain c where c: "cleanup w = Some c"
    and ml: "mouseup_listeners w = (if attached w then [c] else [])"
    and kl: "keyup_listeners w = (if attached w then [c] else [])"
    and st: "stable w"
    by (rule invD)
  have u: "unmount w = (effect_cleanup c w)\<lparr>mounted := False, cleanup := None,
           dropdownToggleRef := None, dropdownMenuRef := None\<rparr>"
    by (simp add: unmount_def c)
  show ?thesis
    unfolding u using ml kl st by (simp add: dropdown_inv_def stable_def)
qed

lemma inv_step:
  assumes i: "dropdown_inv p t m w"
  shows "dropdown_inv p t m (step e w)"
proof (cases e)
  case (SetVisibleProp b)
  show ?thesis
  proof (cases "mounted w")
    case True
    with i have st: "stable w" by (elim invD)
    have a: "dropdown_inv p t m (w\<lparr>props := (props w)\<lparr>visible := Some b\<rparr>, renders := Suc (renders w),
                dep_visible := Some b\<rparr>)"
      using i True by (rule inv_set_prop)
    show ?thesis
    proof (cases "b = with_default False (visible (props w))")
      case eq: True
      have "w\<lparr>props := (props w)\<lparr>visible := Some b\<rparr>, renders := Suc (renders w)\<rparr> =
            w\<lparr>props := (props w)\<lparr>visible := Some b\<rparr>, renders := Suc (renders w),
                dep_visible := Some b\<rparr>"
        using st eq by (cases w) (simp add: stable_def)
      with a show ?thesis
        unfolding SetVisibleProp step_SetVisibleProp [OF st] using eq by simp
    next
      case neq: False
      show ?thesis
        unfolding SetVisibleProp step_SetVisibleProp [OF st] if_not_P [OF neq]
        by (rule inv_settle_setVisible [OF a])
    qed
  next
    case False
    with i show ?thesis by (simp add: SetVisibleProp)
  qed
next
  case (ContextSetVisible v)
  with i show ?thesis by (simp add: inv_settle_setVisible)
next
  case (MouseUp n)
  from foldl_handleMouseUp_inv [OF i, of n] i show ?thesis
    by (auto simp: MouseUp settle_None inv_queued)
next
  case (KeyUp k)
  from foldl_handleKeyup_inv [OF i, of k] i show ?thesis
    by (auto simp: KeyUp settle_None inv_queued inv_settle_setVisible)
next
  case Timeout
  have "dropdown_inv p t m (w\<lparr>timeouts := timeouts w - 1\<rparr>)" using i by simp
  then have "dropdown_inv p t m (settle (setVisible False (w\<lparr>timeouts := timeouts w - 1\<rparr>)))"
    by (rule inv_settle_setVisible)
  with i show ?thesis
    by (simp add: Timeout timeout_fires_def settle_None inv_queued)
next
  case Unmount
  with i show ?thesis by (simp add: inv_unmount)
qed

lemma inv_run: "dropdown_inv p t m w \<Longrightarrow> dropdown_inv p t m (run es w)"
  by (induction es arbitrary: w) (simp_all add: inv_step)

lemma inv_reachable: "dropdown_inv p t m (run es (mount p rtl t m))"
  by (rule inv_run) (rule inv_mount)

subsection \<open>Consequences for the reachable states\<close>

lemma reachable_mounted:
  assumes "w = run es (mount p rtl t m)" and "mounted w"
  obtains c where "stable w" "(props w)\<lparr>visible := None\<rparr> = p\<lparr>visible := None\<rparr>"
    "dropdownToggleRef w = t" "dropdownMenuRef w = m" "cleanup w = Some c"
    "r_autoClose c = with_default (Always True) (autoClose p)"
    "r_popper c = (\<not> is_object (alignment p) \<and> with_default True (popper p))"
    "r_onHide c = onHide p"
    "mouseup_listeners w = (if attached w then [c] else [])"
    "keyup_listeners w = (if attached w then [c] else [])"
proof -
  have "dropdown_inv p t m w" unfolding assms(1) by (rule inv_reachable)
  from this assms(2) show ?thesis by (rule invD) (rule that)
qed

lemma settle_setVisible_visible:
  assumes "stable w"
  shows "visible_state (settle (setVisible v w)) = v"
proof (cases "v = visible_state w")
  case True
  with assms show ?thesis by (simp add: settle_setVisible_same)
next
  case False
  with assms show ?thesis
    by (simp add: settle_setVisible_changed rerender_state_changed stable_def
        split: option.split)
qed

lemma foldl_handleMouseUp_noop:
  assumes "dropdownToggleRef w = None \<or> dropdownMenuRef w = None \<or>
           (\<exists>t. dropdownToggleRef w = Some t \<and> n \<in> t)"
  shows "foldl (\<lambda>a h. handleMouseUp h n a) w hs = w"
proof (induction hs)
  case Nil
  show ?case by simp
next
  case (Cons h hs)
  have "handleMouseUp h n w = w"
    using assms by (auto simp: handleMouseUp_def split: option.split)
  with Cons show ?case by simp
qed

lemma flip_calls:
  assumes st: "stable w" and ne: "v \<noteq> visible_state w" and c: "cleanup w = Some c"
  shows "calls (settle (setVisible v w)) =
     calls w @ (if r_popper c then [DestroyPopper] else []) @
               (if r_onHide c then [OnHide] else []) @
     (case (v, dropdownToggleRef w, dropdownMenuRef w) of
        (True, Some t, Some m) \<Rightarrow>
          (if \<not> is_object (alignment (props w)) \<and> with_default True (popper (props w))
           then [InitPopper t m (r_placement (render_body (w\<lparr>visible_state := v\<rparr>)))
                   (r_offset (render_body (w\<lparr>visible_state := v\<rparr>)))]
           else []) @
          (if onShow (props w) then [OnShow] else [])
      | _ \<Rightarrow> [])"
  unfolding settle_setVisible_flip [OF st ne c]
  by (simp add: effect_visible_state_calls split: option.split bool.split)

lemma step_shape:
  assumes i: "dropdown_inv p t m w"
  shows "\<exists>u. dropdown_inv p t m u \<and> calls u = calls w \<and> mounted u = mounted w \<and>
             visible_state u = visible_state w \<and>
             (step e w = u \<or> (\<exists>v. step e w = settle (setVisible v u)) \<or>
              (mounted w \<and> step e w = unmount w))"
proof (cases e)
  case (SetVisibleProp b)
  show ?thesis
  proof (cases "mounted w")
    case True
    with i have st: "stable w" by (elim invD)
    let ?u = "w\<lparr>props := (props w)\<lparr>visible := Some b\<rparr>, renders := Suc (renders w),
                dep_visible := Some b\<rparr>"
    have a: "dropdown_inv p t m ?u" using i True by (rule inv_set_prop)
    show ?thesis
    proof (cases "b = with_default False (visible (props w))")
      case eq: True
      have "w\<lparr>props := (props w)\<lparr>visible := Some b\<rparr>, renders := Suc (renders w)\<rparr> = ?u"
        using st eq by (cases w) (simp add: stable_def)
      then have "step e w = ?u"
        unfolding SetVisibleProp step_SetVisibleProp [OF st] using eq by simp
      with a show ?thesis by (intro exI [of _ ?u]) simp
    next
      case neq: False
      have "step e w = settle (setVisible b ?u)"
        unfolding SetVisibleProp step_SetVisibleProp [OF st] if_not_P [OF neq] ..
      with a show ?thesis by (intro exI [of _ ?u]) auto
    qed
  next
    case False
    with i show ?thesis by (intro exI [of _ w]) (simp add: SetVisibleProp)
  qed
next
  case (ContextSetVisible v)
  with i show ?thesis by (intro exI [of _ w]) auto
next
  case (MouseUp n)
  from foldl_handleMouseUp_inv [OF i, of n]
  have "step e w = w \<or> step e w = w\<lparr>timeouts := Suc (timeouts w)\<rparr>"
    using i by (auto simp: MouseUp settle_None inv_queued)
  then show ?thesis
  proof
    assume "step e w = w"
    with i show ?thesis by (intro exI [of _ w]) simp
  next
    assume "step e w = w\<lparr>timeouts := Suc (timeouts w)\<rparr>"
    with i show ?thesis by (intro exI [of _ "w\<lparr>timeouts := Suc (timeouts w)\<rparr>"]) simp
  qed
next
  case (KeyUp k)
  from foldl_handleKeyup_inv [OF i, of k]
  have "step e w = settle w \<or> step e w = settle (setVisible False w)"
    by (auto simp: KeyUp)
  with i show ?thesis
    by (intro exI [of _ w]) (auto simp: settle_None inv_queued)
next
  case Timeout
  show ?thesis
  proof (cases "timeouts w = 0")
    case True
    with i show ?thesis
      by (intro exI [of _ w]) (simp add: Timeout timeout_fires_def settle_None inv_queued)
  next
    case False
    with i show ?thesis
      by (intro exI [of _ "w\<lparr>timeouts := timeouts w - 1\<rparr>"])
         (auto simp: Timeout timeout_fires_def)
  qed
next
  case Unmount
  with i show ?thesis by (intro exI [of _ w]) simp
qed

lemma unmounted_setVisible:
  "dropdown_inv p t m u \<Longrightarrow> \<not> mounted u \<Longrightarrow> settle (setVisible v u) = u"
  by (simp add: setVisible_def settle_None inv_queued)

lemma step_unmounted:
  assumes i: "dropdown_inv p t m w" and un: "\<not> mounted w"
  shows "calls (step e w) = calls w \<and> \<not> mounted (step e w) \<and>
         visible_state (step e w) = visible_state w"
proof -
  from step_shape [OF i, of e] obtain u where u: "dropdown_inv p t m u" "calls u = calls w"
    "mounted u = mounted w" "visible_state u = visible_state w"
    and s: "step e w = u \<or> (\<exists>v. step e w = settle (setVisible v u)) \<or>
              (mounted w \<and> step e w = unmount w)"
    by blast
  from s un u have "step e w = u"
    by (auto simp: unmounted_setVisible)
  with u un show ?thesis by simp
qed

lemma run_unmounted:
  assumes "dropdown_inv p t m w" and "\<not> mounted w"
  shows "calls (run es w) = calls w \<and> \<not> mounted (run es w) \<and>
         visible_state (run es w) = visible_state w"
  using assms
proof (induction es arbitrary: w)
  case Nil
  then show ?case by simp
next
  case (Cons e es)
  from Cons.prems have a: "calls (step e w) = calls w \<and> \<not> mounted (step e w) \<and>
         visible_state (step e w) = visible_state w"
    by (rule step_unmounted)
  from Cons.prems(1) have "dropdown_inv p t m (step e w)" by (rule inv_step)
  with a Cons.IH [of "step e w"] show ?case by simp
qed

lemma inv_listeners_iff:
  assumes "dropdown_inv p t m w"
  shows "(mouseup_listeners w \<noteq> []) = (mounted w \<and> visible_state w \<and> t \<noteq> None \<and> m \<noteq> None) \<and>
    (keyup_listeners w \<noteq> []) = (mounted w \<and> visible_state w \<and> t \<noteq> None \<and> m \<noteq> None) \<and>
    length (mouseup_listeners w) \<le> 1 \<and> length (keyup_listeners w) \<le> 1"
proof (cases "mounted w")
  case True
  from assms True obtain c where "dropdownToggleRef w = t" "dropdownMenuRef w = m"
    and "mouseup_listeners w = (if attached w then [c] else [])"
    and "keyup_listeners w = (if attached w then [c] else [])"
    by (rule invD)
  with True show ?thesis by (simp add: attached_def)
next
  case False
  with assms show ?thesis by (simp add: inv_unmounted)
qed

subsection \<open>The calls made to the outside\<close>

lemma mount_calls:
  "calls (mount p rtl t m) =
     (case (with_default False (visible p), t, m) of
        (True, Some a, Some b) \<Rightarrow>
          (if \<not> is_object (alignment p) \<and> with_default True (popper p)
           then [InitPopper a b (r_placement (render_body (initial_world p rtl)))
                   (r_offset (render_body (initial_world p rtl)))]
           else []) @
          (if onShow p then [OnShow] else [])
      | _ \<Rightarrow> [])"
  unfolding mount_eq
  by (simp add: effect_visible_state_calls split: option.split bool.split)

lemma unmount_calls:
  "cleanup w = Some c \<Longrightarrow>
   calls (unmount w) =
     calls w @ (if r_popper c then [DestroyPopper] else []) @
               (if r_onHide c then [OnHide] else [])"
  by (simp add: unmount_def)

lemma no_init_setVisible:
  assumes i: "dropdown_inv p t m u" and ob: "is_object (alignment p)"
    and n: "list_all (\<lambda>c. \<not> is_InitPopper c) (calls u)"
  shows "list_all (\<lambda>c. \<not> is_InitPopper c) (calls (settle (setVisible v u)))"
proof (cases "mounted u")
  case False
  with i n show ?thesis by (simp add: unmounted_setVisible)
next
  case True
  from i True obtain c where st: "stable u"
    and pr: "(props u)\<lparr>visible := None\<rparr> = p\<lparr>visible := None\<rparr>"
    and c: "cleanup u = Some c"
    by (rule invD)
  have al: "alignment (props u) = alignment p" using pr by (rule same_config_fields)
  show ?thesis
  proof (cases "v = visible_state u")
    case True
    with st n show ?thesis by (simp add: settle_setVisible_same)
  next
    case False
    show ?thesis
      unfolding flip_calls [OF st False c] using n ob al
      by (simp split: option.split bool.split)
  qed
qed

lemma no_init_step:
  assumes i: "dropdown_inv p t m w" and ob: "is_object (alignment p)"
    and n: "list_all (\<lambda>c. \<not> is_InitPopper c) (calls w)"
  shows "list_all (\<lambda>c. \<not> is_InitPopper c) (calls (step e w))"
proof -
  from step_shape [OF i, of e] obtain u where u: "dropdown_inv p t m u" "calls u = calls w"
    and s: "step e w = u \<or> (\<exists>v. step e w = settle (setVisible v u)) \<or>
              (mounted w \<and> step e w = unmount w)"
    by blast
  from s show ?thesis
  proof (elim disjE exE conjE)
    assume "step e w = u"
    with u n show ?thesis by simp
  next
    fix v assume "step e w = settle (setVisible v u)"
    moreover have "list_all (\<lambda>c. \<not> is_InitPopper c) (calls (settle (setVisible v u)))"
      using u(1) ob by (rule no_init_setVisible) (simp add: u n)
    ultimately show ?thesis by simp
  next
    assume mo: "mounted w" and un: "step e w = unmount w"
    from i mo obtain c where "cleanup w = Some c" by (rule invD)
    with n show ?thesis unfolding un by (simp add: unmount_calls)
  qed
qed

lemma no_init_run:
  assumes "dropdown_inv p t m w" and "is_object (alignment p)"
    and "list_all (\<lambda>c. \<not> is_InitPopper c) (calls w)"
  shows "list_all (\<lambda>c. \<not> is_InitPopper c) (calls (run es w))"
  using assms
proof (induction es arbitrary: w)
  case Nil
  then show ?case by simp
next
  case (Cons e es)
  have "dropdown_inv p t m (step e w)" using Cons.prems(1) by (rule inv_step)
  moreover have "list_all (\<lambda>c. \<not> is_InitPopper c) (calls (step e w))"
    using Cons.prems by (rule no_init_step)
  ultimately show ?case using Cons.IH [of "step e w"] Cons.prems(2) by simp
qed

subsection \<open>The concrete dropdown, evaluated\<close>

lemmas model_defs =
  mount_def initial_world_def Let_def run_effects_def render_body_def
  effect_visible_prop_def effect_visible_state_def effect_cleanup_def effect_attach_def
  setVisible_def rerender_def is_object_def getPlacement_def addEventListener_def
  removeEventListener_def handleMouseUp_def handleKeyup_def setTimeout_hide_def
  timeout_fires_def unmount_def with_default_def settle.simps
  example_props_def ltr_def

lemma example_mounted_eval:
  "example_mounted =
    \<lparr>mounted = True, props = example_props, visible_state = False, queued = None,
     dropdownToggleRef = Some {1}, dropdownMenuRef = Some {2}, isRTL = ltr, renders = 1,
     dep_visible = Some False, dep_visible_state = Some False,
     cleanup = Some \<lparr>rid = 0, r_visible_prop = False, r_visible = False,
          r_autoClose = Always True, r_popper = True, r_onHide = True,
          r_onShow = True, r_placement = BottomStart, r_offset = (0, 2)\<rparr>,
     mouseup_listeners = [], keyup_listeners = [], timeouts = 0, calls = []\<rparr>"
  by (simp add: example_mounted_def model_defs)

lemma example_shown_eval:
  "example_shown =
    \<lparr>mounted = True, props = example_props\<lparr>visible := Some True\<rparr>,
     visible_state = True, queued = None,
     dropdownToggleRef = Some {1}, dropdownMenuRef = Some {2}, isRTL = ltr, renders = 3,
     dep_visible = Some True, dep_visible_state = Some True,
     cleanup = Some \<lparr>rid = 2, r_visible_prop = True, r_visible = True,
          r_autoClose = Always True, r_popper = True, r_onHide = True,
          r_onShow = True, r_placement = BottomStart, r_offset = (0, 2)\<rparr>,
     mouseup_listeners = [\<lparr>rid = 2, r_visible_prop = True, r_visible = True,
          r_autoClose = Always True, r_popper = True, r_onHide = True,
          r_onShow = True, r_placement = BottomStart, r_offset = (0, 2)\<rparr>],
     keyup_listeners = [\<lparr>rid = 2, r_visible_prop = True, r_visible = True,
          r_autoClose = Always True, r_popper = True, r_onHide = True,
          r_onShow = True, r_placement = BottomStart, r_offset = (0, 2)\<rparr>],
     timeouts = 0,
     calls = [DestroyPopper, OnHide, InitPopper {1} {2} BottomStart (0, 2), OnShow]\<rparr>"
  by (simp add: example_shown_def example_mounted_eval model_defs)

lemma example_shown_reachable:
  "example_shown = run [SetVisibleProp True] (mount example_props ltr (Some {1}) (Some {2}))"
  by (simp add: example_shown_def example_mounted_def)

lemma example_never_shown_eval:
  "mounted example_never_shown" "visible_state example_never_shown"
  by (simp_all add: example_never_shown_def model_defs)

lemma example_outside_shown_eval:
  "mounted example_outside_shown" "visible_state example_outside_shown"
  "timeouts example_outside_shown = 0"
  by (simp_all add: example_outside_shown_def example_outside_def model_defs)

section \<open>Properties of the visibility controller\<close>

text \<open>
  Claim C3, as stated, fails: the \<open>keyup\<close> listener is registered by the second effect
  only behind its guard, so in a dropdown that renders no toggle the panel is shown, the
  auto-close mode is the default \<open>true\<close>, and a released Escape key leaves it shown.
\<close>

theorem escape_key_without_toggle:
  "mounted example_untoggled_shown \<and> visible_state example_untoggled_shown \<and>
   with_default (Always True) (autoClose (props example_untoggled_shown)) = Always True \<and>
   keyup_listeners example_untoggled_shown = [] \<and>
   visible_state (step (KeyUp ''Escape'') example_untoggled_shown) \<and>
   step (KeyUp ''Escape'') example_untoggled_shown = example_untoggled_shown"
  by (simp add: example_untoggled_shown_def model_defs)

text \<open>
  Claim C3, amended. While the panel is shown and the \<open>keyup\<close> listener of the component is
  registered, a released Escape key hides the panel when the auto-close mode of that
  listener is not \<open>false\<close>, and changes nothing when it is \<open>false\<close>; this is the first part
  below, for any state \<open>u\<close> at rest. In the states reached from a mount with toggle \<open>t\<close> and
  menu \<open>m\<close> the listener is registered exactly when both elements are mounted, and its
  mode is that of the props: with both elements a released Escape key hides the shown
  panel unless the mode is \<open>false\<close>; with mode \<open>false\<close>, or without one of the elements,
  it leaves the whole state as it was.
\<close>

theorem escape_key:
  assumes w: "w = run es (mount p rtl t m)" and mo: "mounted w" and vis: "visible_state w"
  shows "(stable u \<and> visible_state u \<and> keyup_listeners u = [h] \<longrightarrow>
            (r_autoClose h \<noteq> Always False \<longrightarrow> \<not> visible_state (step (KeyUp ''Escape'') u)) \<and>
            (r_autoClose h = Always False \<longrightarrow> step (KeyUp ''Escape'') u = u)) \<and>
         (keyup_listeners w \<noteq> []) = (t \<noteq> None \<and> m \<noteq> None) \<and>
         (t \<noteq> None \<and> m \<noteq> None \<and>
          with_default (Always True) (autoClose p) \<noteq> Always False \<longrightarrow>
            \<not> visible_state (step (KeyUp ''Escape'') w)) \<and>
         (with_default (Always True) (autoClose p) = Always False \<longrightarrow>
            step (KeyUp ''Escape'') w = w) \<and>
         (t = None \<or> m = None \<longrightarrow> step (KeyUp ''Escape'') w = w)"
proof -
  have g: "(r_autoClose h \<noteq> Always False \<longrightarrow> \<not> visible_state (step (KeyUp ''Escape'') u)) \<and>
           (r_autoClose h = Always False \<longrightarrow> step (KeyUp ''Escape'') u = u)"
    if st: "stable u" and kl: "keyup_listeners u = [h]" for u h
  proof -
    have q: "queued u = None" using st by (simp add: stable_def)
    have hide: "\<not> visible_state (settle (setVisible False u))"
      using st by (simp add: settle_setVisible_visible)
    have s: "step (KeyUp ''Escape'') u = settle (handleKeyup h ''Escape'' u)"
      using kl by simp
    show ?thesis
      unfolding s using hide q by (simp add: handleKeyup_def settle_None)
  qed
  from w mo obtain c where st: "stable w"
    and rt: "dropdownToggleRef w = t" and rm: "dropdownMenuRef w = m"
    and ac: "r_autoClose c = with_default (Always True) (autoClose p)"
    and kl: "keyup_listeners w = (if attached w then [c] else [])"
    by (rule reachable_mounted)
  have q: "queued w = None" using st by (simp add: stable_def)
  have at: "attached w = (t \<noteq> None \<and> m \<noteq> None)"
    using vis rt rm by (simp add: attached_def)
  have a: "stable u \<and> visible_state u \<and> keyup_listeners u = [h] \<longrightarrow>
            (r_autoClose h \<noteq> Always False \<longrightarrow> \<not> visible_state (step (KeyUp ''Escape'') u)) \<and>
            (r_autoClose h = Always False \<longrightarrow> step (KeyUp ''Escape'') u = u)"
    using g [of u h] by blast
  have b: "(keyup_listeners w \<noteq> []) = (t \<noteq> None \<and> m \<noteq> None)"
    using kl at by simp
  have none: "step (KeyUp ''Escape'') w = w" if "\<not> attached w"
    using that kl q by (simp add: settle_None)
  have some: "(r_autoClose c \<noteq> Always False \<longrightarrow> \<not> visible_state (step (KeyUp ''Escape'') w)) \<and>
           (r_autoClose c = Always False \<longrightarrow> step (KeyUp ''Escape'') w = w)"
    if "attached w"
    using that kl g [OF st, of c] by simp
  have d: "t \<noteq> None \<and> m \<noteq> None \<and>
          with_default (Always True) (autoClose p) \<noteq> Always False \<longrightarrow>
            \<not> visible_state (step (KeyUp ''Escape'') w)"
    using some at ac by simp
  have e: "with_default (Always True) (autoClose p) = Always False \<longrightarrow>
            step (KeyUp ''Escape'') w = w"
    using some none ac by (cases "attached w") simp_all
  have f: "t = None \<or> m = None \<longrightarrow> step (KeyUp ''Escape'') w = w"
    using none at by blast
  from a b d e f show ?thesis by blast
qed

theorem escape_key_witness:
  "visible_state example_shown \<and>
   keyup_listeners example_shown \<noteq> [] \<and>
   \<not> visible_state (step (KeyUp ''Escape'') example_shown) \<and>
   visible_state example_never_shown \<and>
   visible_state (step (KeyUp ''Escape'') example_never_shown) \<and>
   visible_state example_untoggled_shown \<and>
   visible_state (step (KeyUp ''Escape'') example_untoggled_shown)"
proof -
  have mo: "mounted example_shown" and vis: "visible_state example_shown"
    by (simp_all add: example_shown_eval)
  note n = example_never_shown_eval
  have u: "mounted example_untoggled_shown" "visible_state example_untoggled_shown"
    by (simp_all add: example_untoggled_shown_def model_defs)
  have st: "stable example_shown \<and> visible_state example_shown \<and>
      keyup_listeners example_shown = [the (cleanup example_shown)]"
    by (simp add: example_shown_eval stable_def with_default_def)
  have on: "r_autoClose (the (cleanup example_shown)) \<noteq> Always False"
    by (simp add: example_shown_eval)
  from escape_key [OF example_shown_reachable mo vis, of example_shown
        "the (cleanup example_shown)"]
    escape_key [OF example_never_shown_def n, of example_shown "the (cleanup example_shown)"]
    escape_key [OF example_untoggled_shown_def u, of example_shown
        "the (cleanup example_shown)"]
    st on
  show ?thesis
    by (auto simp: vis n u example_props_def with_default_def simp del: step.simps)
qed

text \<open>
  Claim C4. In a dropdown with toggle \<open>t\<close> and menu \<open>m\<close> whose panel is shown: with
  auto-close mode \<open>'outside'\<close> a pointer release inside the menu changes nothing; with mode
  \<open>'outside'\<close> or \<open>true\<close> a pointer release outside both the toggle and the menu schedules
  the deferred \<open>setVisible(false)\<close>, and once that callback has run the panel is hidden.
\<close>

theorem pointer_release_outside:
  assumes w: "w = run es (mount p rtl (Some t) (Some m))"
    and mo: "mounted w" and vis: "visible_state w"
  shows "(with_default (Always True) (autoClose p) = Outside \<and> n \<in> m \<longrightarrow>
            step (MouseUp n) w = w) \<and>
         (with_default (Always True) (autoClose p) \<in> {Outside, Always True} \<and>
          n \<notin> t \<and> n \<notin> m \<longrightarrow>
            step (MouseUp n) w = w\<lparr>timeouts := Suc (timeouts w)\<rparr> \<and>
            \<not> visible_state (step Timeout (step (MouseUp n) w)))"
proof -
  from w mo obtain c where st: "stable w"
    and rt: "dropdownToggleRef w = Some t" and rm: "dropdownMenuRef w = Some m"
    and ac: "r_autoClose c = with_default (Always True) (autoClose p)"
    and ml: "mouseup_listeners w = (if attached w then [c] else [])"
    by (rule reachable_mounted)
  have q: "queued w = None" using st by (simp add: stable_def)
  from vis rt rm have "attached w" by (simp add: attached_def)
  with ml have "mouseup_listeners w = [c]" by simp
  then have s: "step (MouseUp n) w = settle (handleMouseUp c n w)" by simp
  have inside: "with_default (Always True) (autoClose p) = Outside \<and> n \<in> m \<longrightarrow>
            step (MouseUp n) w = w"
    unfolding s using rt rm ac q by (simp add: handleMouseUp_def settle_None)
  have outside: "with_default (Always True) (autoClose p) \<in> {Outside, Always True} \<and>
          n \<notin> t \<and> n \<notin> m \<longrightarrow>
            step (MouseUp n) w = w\<lparr>timeouts := Suc (timeouts w)\<rparr> \<and>
            \<not> visible_state (step Timeout (step (MouseUp n) w))"
  proof
    assume h: "with_default (Always True) (autoClose p) \<in> {Outside, Always True} \<and>
          n \<notin> t \<and> n \<notin> m"
    have e: "step (MouseUp n) w = w\<lparr>timeouts := Suc (timeouts w)\<rparr>"
      unfolding s using rt rm ac q h
      by (auto simp: handleMouseUp_def setTimeout_hide_def settle_None)
    have "\<not> visible_state (settle (setVisible False w))"
      using st by (simp add: settle_setVisible_visible)
    then have "\<not> visible_state (step Timeout (w\<lparr>timeouts := Suc (timeouts w)\<rparr>))"
      by (simp add: timeout_fires_def)
    with e show "step (MouseUp n) w = w\<lparr>timeouts := Suc (timeouts w)\<rparr> \<and>
            \<not> visible_state (step Timeout (step (MouseUp n) w))" by simp
  qed
  from inside outside show ?thesis by blast
qed

theorem pointer_release_outside_witness:
  "visible_state example_outside_shown \<and>
   step (MouseUp 2) example_outside_shown = example_outside_shown \<and>
   timeouts (step (MouseUp 7) example_outside_shown) = 1 \<and>
   \<not> visible_state (step Timeout (step (MouseUp 7) example_outside_shown)) \<and>
   visible_state example_shown \<and>
   \<not> visible_state (step Timeout (step (MouseUp 7) example_shown))"
proof -
  note e = example_outside_shown_eval
  note r = example_outside_shown_def
  have ac: "with_default (Always True) (autoClose example_outside) = Outside"
    by (simp add: example_outside_def with_default_def)
  have mo: "mounted example_shown" and vis: "visible_state example_shown"
    by (simp_all add: example_shown_eval)
  have al: "with_default (Always True) (autoClose example_props) = Always True"
    by (simp add: example_props_def with_default_def)
  from pointer_release_outside [OF r e(1) e(2), of 2] pointer_release_outside [OF r e(1) e(2), of 7]
    pointer_release_outside [OF example_shown_reachable mo vis, of 7]
  show ?thesis by (auto simp: ac al e vis simp del: step.simps)
qed

text \<open>
  Claim C5, as stated, fails: in a dropdown that renders no toggle the second effect does
  not pass its guard, so setting \<open>visible\<close> to true shows the panel without invoking
  \<open>onShow\<close>.
\<close>

theorem visible_prop_not_always_onShow:
  "onShow (props example_untoggled) \<and> \<not> visible_state example_untoggled \<and>
   visible_state (step (SetVisibleProp True) example_untoggled) \<and>
   count_list (calls (step (SetVisibleProp True) example_untoggled)) OnShow = 0"
  by (simp add: example_untoggled_def model_defs)

text \<open>
  Claim C5, amended. A change of the \<open>visible\<close> prop makes the state equal to the new
  prop value. When the new value is true and the panel was hidden, \<open>onShow\<close> is invoked
  exactly once provided the toggle and the menu are mounted, and not at all otherwise; when
  the new value is false and the panel was shown, \<open>onHide\<close> is invoked exactly once.
\<close>

theorem visible_prop_mirrored:
  assumes w: "w = run es (mount p rtl t m)" and mo: "mounted w"
    and ch: "b \<noteq> with_default False (visible (props w))"
  shows "visible_state (step (SetVisibleProp b) w) = b \<and>
    (b \<and> \<not> visible_state w \<and> onShow p \<longrightarrow>
       count_list (calls (step (SetVisibleProp b) w)) OnShow =
         count_list (calls w) OnShow + (if t \<noteq> None \<and> m \<noteq> None then 1 else 0)) \<and>
    (\<not> b \<and> visible_state w \<and> onHide p \<longrightarrow>
       count_list (calls (step (SetVisibleProp b) w)) OnHide = count_list (calls w) OnHide + 1)"
proof -
  from w mo obtain c where st: "stable w"
    and pr: "(props w)\<lparr>visible := None\<rparr> = p\<lparr>visible := None\<rparr>"
    and rt: "dropdownToggleRef w = t" and rm: "dropdownMenuRef w = m"
    and c: "cleanup w = Some c"
    and oh: "r_onHide c = onHide p"
    by (rule reachable_mounted)
  note f = same_config_fields [OF pr]
  let ?u = "w\<lparr>props := (props w)\<lparr>visible := Some b\<rparr>, renders := Suc (renders w),
              dep_visible := Some b\<rparr>"
  have s: "step (SetVisibleProp b) w = settle (setVisible b ?u)"
    unfolding step_SetVisibleProp [OF st] if_not_P [OF ch] ..
  have su: "stable ?u" using st by (simp add: stable_def with_default_def)
  have cu: "cleanup ?u = Some c" using c by simp
  have v: "visible_state (step (SetVisibleProp b) w) = b"
    unfolding s using su by (rule settle_setVisible_visible)
  have sh: "b \<and> \<not> visible_state w \<and> onShow p \<longrightarrow>
       count_list (calls (step (SetVisibleProp b) w)) OnShow =
         count_list (calls w) OnShow + (if t \<noteq> None \<and> m \<noteq> None then 1 else 0)"
  proof
    assume h: "b \<and> \<not> visible_state w \<and> onShow p"
    then have ne: "b \<noteq> visible_state ?u" by simp
    show "count_list (calls (step (SetVisibleProp b) w)) OnShow =
         count_list (calls w) OnShow + (if t \<noteq> None \<and> m \<noteq> None then 1 else 0)"
      unfolding s flip_calls [OF su ne cu] using h rt rm f
      by (simp split: option.split)
  qed
  have hi: "\<not> b \<and> visible_state w \<and> onHide p \<longrightarrow>
       count_list (calls (step (SetVisibleProp b) w)) OnHide = count_list (calls w) OnHide + 1"
  proof
    assume h: "\<not> b \<and> visible_state w \<and> onHide p"
    then have ne: "b \<noteq> visible_state ?u" by simp
    show "count_list (calls (step (SetVisibleProp b) w)) OnHide = count_list (calls w) OnHide + 1"
      unfolding s flip_calls [OF su ne cu] using h oh
      by (simp split: option.split)
  qed
  from v sh hi show ?thesis by blast
qed

theorem visible_prop_mirrored_witness:
  "visible_state (step (SetVisibleProp True) example_mounted) \<and>
   count_list (calls (step (SetVisibleProp True) example_mounted)) OnShow = 1 \<and>
   \<not> visible_state (step (SetVisibleProp False) example_shown) \<and>
   count_list (calls (step (SetVisibleProp False) example_shown)) OnHide =
     count_list (calls example_shown) OnHide + 1"
proof -
  have r0: "example_mounted = run [] (mount example_props ltr (Some {1}) (Some {2}))"
    by (simp add: example_mounted_def)
  have m0: "mounted example_mounted" by (simp add: example_mounted_eval)
  have c0: "True \<noteq> with_default False (visible (props example_mounted))"
    by (simp add: example_mounted_eval example_props_def with_default_def)
  have m1: "mounted example_shown" by (simp add: example_shown_eval)
  have c1: "False \<noteq> with_default False (visible (props example_shown))"
    by (simp add: example_shown_eval with_default_def)
  from visible_prop_mirrored [OF r0 m0 c0] visible_prop_mirrored [OF example_shown_reachable m1 c1]
  show ?thesis
    by (simp add: example_mounted_eval example_shown_eval example_props_def)
qed

text \<open>
  Remark. The transition from hidden to shown first runs the cleanup returned by the
  preceding run of the second effect; that cleanup is returned unconditionally, so
  \<open>destroyPopper\<close> and \<open>onHide\<close> are called before \<open>initPopper\<close> and \<open>onShow\<close>.
\<close>

lemma show_transition_calls:
  "calls example_mounted = [] \<and>
   calls example_shown = [DestroyPopper, OnHide, InitPopper {1} {2} BottomStart (0, 2), OnShow]"
  by (simp add: example_mounted_eval example_shown_eval)

text \<open>
  Claim C6. In every reachable state the component has a \<open>mouseup\<close> listener and a \<open>keyup\<close>
  listener on \<open>window\<close>, one of each, exactly when it is mounted, the panel is shown and
  the toggle and the menu are mounted; so the listeners are attached on entry to shown
  and removed on every exit. After unmounting, from any reachable state, none of its
  listeners remains, and whatever happens later invokes no callback and changes no state.
\<close>

theorem listeners_paired_with_shown:
  assumes w: "w = run es (mount p rtl t m)" and w': "w' = step Unmount w"
  shows "(mouseup_listeners w \<noteq> []) =
           (mounted w \<and> visible_state w \<and> t \<noteq> None \<and> m \<noteq> None) \<and>
         (keyup_listeners w \<noteq> []) =
           (mounted w \<and> visible_state w \<and> t \<noteq> None \<and> m \<noteq> None) \<and>
         length (mouseup_listeners w) \<le> 1 \<and> length (keyup_listeners w) \<le> 1 \<and>
         mouseup_listeners (run es' w') = [] \<and> keyup_listeners (run es' w') = [] \<and>
         calls (run es' w') = calls w' \<and> visible_state (run es' w') = visible_state w'"
proof -
  have i: "dropdown_inv p t m w" unfolding w by (rule inv_reachable)
  then have i': "dropdown_inv p t m w'" unfolding w' by (rule inv_step)
  have un: "\<not> mounted w'" unfolding w' by (simp add: unmount_def Let_def)
  have i'': "dropdown_inv p t m (run es' w')" using i' by (rule inv_run)
  from run_unmounted [OF i' un, of es']
  have r: "calls (run es' w') = calls w'" "\<not> mounted (run es' w')"
    "visible_state (run es' w') = visible_state w'" by simp_all
  from inv_listeners_iff [OF i''] r(2)
  have e: "mouseup_listeners (run es' w') = []" "keyup_listeners (run es' w') = []"
    by simp_all
  from inv_listeners_iff [OF i] e r show ?thesis by blast
qed

theorem listeners_paired_with_shown_witness:
  "mouseup_listeners example_shown \<noteq> [] \<and> keyup_listeners example_shown \<noteq> [] \<and>
   mouseup_listeners (step Unmount example_shown) = [] \<and>
   keyup_listeners (step Unmount example_shown) = [] \<and>
   calls (run [MouseUp 7, KeyUp ''Escape'', Timeout] (step Unmount example_shown)) =
     calls (step Unmount example_shown)"
  using listeners_paired_with_shown [OF example_shown_reachable refl, of "[]"]
    listeners_paired_with_shown [OF example_shown_reachable refl,
      of "[MouseUp 7, KeyUp ''Escape'', Timeout]"]
  by (simp add: example_shown_eval)

text \<open>
  Claim C9. Whatever the auto-close mode of the handler, \<open>handleMouseUp\<close> returns without
  any effect when the toggle element or the menu element is absent, or when the target of
  the event lies in the toggle element; a \<open>mouseup\<close> event on \<open>window\<close> then leaves the
  whole state as it was, with no timeout scheduled.
\<close>

theorem handleMouseUp_noop:
  assumes "dropdownToggleRef w = None \<or> dropdownMenuRef w = None \<or>
           (\<exists>t. dropdownToggleRef w = Some t \<and> n \<in> t)"
  shows "handleMouseUp h n w = w \<and> (queued w = None \<longrightarrow> step (MouseUp n) w = w)"
proof
  show "handleMouseUp h n w = w"
    using assms by (auto simp: handleMouseUp_def split: option.split)
  show "queued w = None \<longrightarrow> step (MouseUp n) w = w"
    by (simp add: foldl_handleMouseUp_noop [OF assms] settle_None)
qed

theorem handleMouseUp_noop_witness:
  "mouseup_listeners example_shown \<noteq> [] \<and>
   handleMouseUp (render_body example_shown) 1 example_shown = example_shown \<and>
   step (MouseUp 1) example_shown = example_shown \<and>
   handleMouseUp (render_body example_shown) 7 example_untoggled = example_untoggled"
proof -
  have a: "dropdownToggleRef example_shown = None \<or> dropdownMenuRef example_shown = None \<or>
           (\<exists>t. dropdownToggleRef example_shown = Some t \<and> 1 \<in> t)"
    by (simp add: example_shown_eval)
  have q: "queued example_shown = None" by (simp add: example_shown_eval)
  have l: "mouseup_listeners example_shown \<noteq> []" by (simp add: example_shown_eval)
  have "dropdownToggleRef example_untoggled = None"
    by (simp add: example_untoggled_def mount_eq)
  then have b: "dropdownToggleRef example_untoggled = None \<or>
           dropdownMenuRef example_untoggled = None \<or>
           (\<exists>t. dropdownToggleRef example_untoggled = Some t \<and> 7 \<in> t)"
    by simp
  from handleMouseUp_noop [OF a, of "render_body example_shown"]
    handleMouseUp_noop [OF b, of "render_body example_shown"] q l
  show ?thesis by (simp del: step.simps)
qed

text \<open>
  Claim C10. When the \<open>alignment\<close> prop is a breakpoint object, \<open>initPopper\<close> is never
  called, whatever the \<open>popper\<close> prop says and whatever happens to the component, and the
  value of \<open>popper\<close> that every render computes is false.
\<close>

theorem responsive_alignment_disables_popper:
  assumes a: "alignment p = Some (Responsive bp)" and w: "w = run es (mount p rtl t m)"
  shows "list_all (\<lambda>c. \<not> is_InitPopper c) (calls w) \<and>
         (mounted w \<longrightarrow> \<not> r_popper (render_body w))"
proof
  have ob: "is_object (alignment p)" using a by (simp add: is_object_def)
  have "list_all (\<lambda>c. \<not> is_InitPopper c) (calls (mount p rtl t m))"
    using ob by (simp add: mount_calls split: option.split bool.split)
  with inv_mount ob show "list_all (\<lambda>c. \<not> is_InitPopper c) (calls w)"
    unfolding w by (rule no_init_run)
  show "mounted w \<longrightarrow> \<not> r_popper (render_body w)"
  proof
    assume "mounted w"
    with w obtain c where "(props w)\<lparr>visible := None\<rparr> = p\<lparr>visible := None\<rparr>"
      by (rule reachable_mounted)
    then have "alignment (props w) = alignment p" by (rule same_config_fields)
    with ob show "\<not> r_popper (render_body w)" by simp
  qed
qed

theorem responsive_alignment_disables_popper_witness:
  "visible_state (run [SetVisibleProp True] (mount example_responsive ltr (Some {1}) (Some {2}))) \<and>
   popper example_responsive = Some True \<and>
   list_all (\<lambda>c. \<not> is_InitPopper c)
     (calls (run [SetVisibleProp True] (mount example_responsive ltr (Some {1}) (Some {2}))))"
proof -
  have a: "alignment example_responsive = Some (Responsive (Md End))"
    by (simp add: example_responsive_def)
  have v: "visible_state
      (run [SetVisibleProp True] (mount example_responsive ltr (Some {1}) (Some {2})))"
    by (simp add: example_responsive_def model_defs)
  from responsive_alignment_disables_popper [OF a refl, of "[SetVisibleProp True]" ltr
      "Some {1}" "Some {2}"] v
  show ?thesis by (simp add: example_responsive_def)
qed

end
